theory Spec2Isabelle
  imports Complex_Main "HOL-Library.Sublist"
begin

section \<open>Text: the string operations used by the ingestion loop\<close>

text \<open>
  A JavaScript string is modelled by the UTF-8 bytes of its text, as a \<^typ>\<open>string\<close>.
  The delimiters the program looks for (line feed, comma, the status keywords) are ASCII,
  and an ASCII byte never occurs inside a multi-byte UTF-8 sequence, so splitting and
  substring search on the bytes agree with the same operations on the characters.
\<close>

definition nl :: char where
  "nl = CHR 0x0A"

text \<open>
  \<^verbatim>\<open>s.split(d)\<close> for a one-character separator: the pieces between the occurrences of
  the separator; a string with \<open>N\<close> separators has \<open>N + 1\<close> pieces, the empty string one.
\<close>

fun js_split :: "char \<Rightarrow> string \<Rightarrow> string list" where
  "js_split d [] = [[]]"
| "js_split d (c # cs) =
     (if c = d then [] # js_split d cs
      else (case js_split d cs of
              [] \<Rightarrow> [[c]]
            | p # ps \<Rightarrow> (c # p) # ps))"

text \<open>
  \<^verbatim>\<open>s.includes(pat)\<close>: \<open>pat\<close> occurs in \<open>s\<close> as a contiguous substring.
\<close>

fun js_includes :: "string \<Rightarrow> string \<Rightarrow> bool" where
  "js_includes [] pat = (pat = [])"
| "js_includes (c # cs) pat = (prefix pat (c # cs) \<or> js_includes cs pat)"

text \<open>
  The characters that \<^verbatim>\<open>trim\<close>, \<^verbatim>\<open>parseInt\<close> and \<^verbatim>\<open>parseFloat\<close> skip are the
  WhiteSpace and LineTerminator code points of ECMAScript, here by their UTF-8 encodings:
  U+0009 to U+000D, U+0020, U+00A0, U+1680, U+2000 to U+200A, U+2028, U+2029, U+202F,
  U+205F, U+3000 and U+FEFF.
\<close>

definition whitespace :: "string list" where
  "whitespace =
     [[CHR 0x09], [CHR 0x0A], [CHR 0x0B], [CHR 0x0C], [CHR 0x0D], [CHR 0x20],
      [CHR 0xC2, CHR 0xA0],
      [CHR 0xE1, CHR 0x9A, CHR 0x80],
      [CHR 0xE2, CHR 0x80, CHR 0x80], [CHR 0xE2, CHR 0x80, CHR 0x81],
      [CHR 0xE2, CHR 0x80, CHR 0x82], [CHR 0xE2, CHR 0x80, CHR 0x83],
      [CHR 0xE2, CHR 0x80, CHR 0x84], [CHR 0xE2, CHR 0x80, CHR 0x85],
      [CHR 0xE2, CHR 0x80, CHR 0x86], [CHR 0xE2, CHR 0x80, CHR 0x87],
      [CHR 0xE2, CHR 0x80, CHR 0x88], [CHR 0xE2, CHR 0x80, CHR 0x89],
      [CHR 0xE2, CHR 0x80, CHR 0x8A],
      [CHR 0xE2, CHR 0x80, CHR 0xA8], [CHR 0xE2, CHR 0x80, CHR 0xA9],
      [CHR 0xE2, CHR 0x80, CHR 0xAF],
      [CHR 0xE2, CHR 0x81, CHR 0x9F],
      [CHR 0xE3, CHR 0x80, CHR 0x80],
      [CHR 0xEF, CHR 0xBB, CHR 0xBF]]"

text \<open>The number of bytes of the white space character a string starts (ends) with;
  0 when it starts (ends) with none.\<close>

definition leading_ws :: "string \<Rightarrow> nat" where
  "leading_ws s = (case find (\<lambda>w. prefix w s) whitespace of None \<Rightarrow> 0 | Some w \<Rightarrow> length w)"

definition trailing_ws :: "string \<Rightarrow> nat" where
  "trailing_ws s = (case find (\<lambda>w. suffix w s) whitespace of None \<Rightarrow> 0 | Some w \<Rightarrow> length w)"

function trimStart :: "string \<Rightarrow> string" where
  "trimStart s = (if leading_ws s = 0 then s else trimStart (drop (leading_ws s) s))"
  by pat_completeness auto
termination
proof (relation "measure length")
  show "wf (measure length)"
    by simp
next
  fix s :: string
  assume pos: "leading_ws s \<noteq> 0"
  have "leading_ws [] = 0"
    by (simp add: leading_ws_def whitespace_def)
  with pos have "s \<noteq> []"
    by auto
  with pos show "(drop (leading_ws s) s, s) \<in> measure length"
    by simp
qed

function trimEnd :: "string \<Rightarrow> string" where
  "trimEnd s = (if trailing_ws s = 0 then s else trimEnd (take (length s - trailing_ws s) s))"
  by pat_completeness auto
termination
proof (relation "measure length")
  show "wf (measure length)"
    by simp
next
  fix s :: string
  assume pos: "trailing_ws s \<noteq> 0"
  have "trailing_ws [] = 0"
    by (simp add: trailing_ws_def whitespace_def)
  with pos have "s \<noteq> []"
    by auto
  with pos show "(take (length s - trailing_ws s) s, s) \<in> measure length"
    by simp
qed

declare trimStart.simps [simp del]
declare trimEnd.simps [simp del]

definition js_trim :: "string \<Rightarrow> string" where
  "js_trim s = trimEnd (trimStart s)"

subsection \<open>LineBreakTransformer\<close>

text \<open>
  \<^verbatim>\<open>
  class LineBreakTransformer {
    constructor() { this.container = '' }
    transform(chunk, controller) {
      this.container += chunk;
      const lines = this.container.split('\n');
      this.container = lines.pop();
      for (const line of lines) controller.enqueue(line);
    }
    flush(controller) {
      if (this.container) controller.enqueue(this.container);
    }
  }
  \<close>
  The transformer's state is \<open>container\<close>; \<open>transform\<close> returns the new container and the
  lines it enqueues, in order. \<open>lines.pop()\<close> removes and returns the last piece.
\<close>

definition constructor_container :: string where
  "constructor_container = []"

definition transform :: "string \<Rightarrow> string \<Rightarrow> string \<times> string list" where
  "transform container chunk =
     (let container1 = container @ chunk;
          lines = js_split nl container1
      in (last lines, butlast lines))"

definition flush :: "string \<Rightarrow> string list" where
  "flush container = (if container \<noteq> [] then [container] else [])"

text \<open>The stream calls \<open>transform\<close> once per chunk, in arrival order, and \<open>flush\<close> when
  the stream closes.\<close>

fun feed :: "string \<Rightarrow> string list \<Rightarrow> string \<times> string list" where
  "feed container [] = (container, [])"
| "feed container (chunk # chunks) =
     (case transform container chunk of
        (container1, out) \<Rightarrow>
          (case feed container1 chunks of
             (container2, outs) \<Rightarrow> (container2, out @ outs)))"

definition run_framer :: "string list \<Rightarrow> string list" where
  "run_framer chunks =
     (case feed constructor_container chunks of
        (container, out) \<Rightarrow> out @ flush container)"

section \<open>Numbers\<close>

text \<open>
  A JavaScript number is modelled as a real number, an infinity or NaN: arithmetic is exact
  (the rounding of binary64 and its overflow are not modelled, and zero carries no sign).
  Values that are known to be finite (clock readings, the integer that \<^verbatim>\<open>parseInt\<close>
  returns) are kept as \<^typ>\<open>real\<close> and \<^typ>\<open>int\<close>.
\<close>

datatype jsnum = NaN | Num real | PosInf | NegInf

text \<open>\<^verbatim>\<open>a + b\<close>\<close>

fun jadd :: "jsnum \<Rightarrow> jsnum \<Rightarrow> jsnum" where
  "jadd NaN b = NaN"
| "jadd a NaN = NaN"
| "jadd (Num x) (Num y) = Num (x + y)"
| "jadd PosInf NegInf = NaN"
| "jadd NegInf PosInf = NaN"
| "jadd PosInf b = PosInf"
| "jadd a PosInf = PosInf"
| "jadd NegInf b = NegInf"
| "jadd a NegInf = NegInf"

text \<open>\<^verbatim>\<open>a * b\<close>\<close>

fun jmul :: "jsnum \<Rightarrow> jsnum \<Rightarrow> jsnum" where
  "jmul NaN b = NaN"
| "jmul a NaN = NaN"
| "jmul (Num x) (Num y) = Num (x * y)"
| "jmul PosInf (Num y) = (if y = 0 then NaN else if 0 < y then PosInf else NegInf)"
| "jmul NegInf (Num y) = (if y = 0 then NaN else if 0 < y then NegInf else PosInf)"
| "jmul (Num x) PosInf = (if x = 0 then NaN else if 0 < x then PosInf else NegInf)"
| "jmul (Num x) NegInf = (if x = 0 then NaN else if 0 < x then NegInf else PosInf)"
| "jmul PosInf PosInf = PosInf"
| "jmul NegInf NegInf = PosInf"
| "jmul PosInf NegInf = NegInf"
| "jmul NegInf PosInf = NegInf"

text \<open>\<^verbatim>\<open>a / b\<close>; a zero divisor counts as positive zero.\<close>

fun jdiv :: "jsnum \<Rightarrow> jsnum \<Rightarrow> jsnum" where
  "jdiv NaN b = NaN"
| "jdiv a NaN = NaN"
| "jdiv (Num x) (Num y) =
     (if y = 0 then (if x = 0 then NaN else if 0 < x then PosInf else NegInf)
      else Num (x / y))"
| "jdiv (Num x) PosInf = Num 0"
| "jdiv (Num x) NegInf = Num 0"
| "jdiv PosInf (Num y) = (if 0 \<le> y then PosInf else NegInf)"
| "jdiv NegInf (Num y) = (if 0 \<le> y then NegInf else PosInf)"
| "jdiv PosInf b = NaN"
| "jdiv NegInf b = NaN"

text \<open>\<^verbatim>\<open>a >= b\<close>: false when either side is NaN.\<close>

fun jge :: "jsnum \<Rightarrow> jsnum \<Rightarrow> bool" where
  "jge NaN b = False"
| "jge a NaN = False"
| "jge (Num x) (Num y) = (y \<le> x)"
| "jge PosInf b = True"
| "jge a NegInf = True"
| "jge NegInf b = False"
| "jge a PosInf = False"

text \<open>\<^verbatim>\<open>Math.min(a, b)\<close> and \<^verbatim>\<open>Math.max(a, b)\<close>: NaN when either argument is NaN.\<close>

fun Math_min :: "jsnum \<Rightarrow> jsnum \<Rightarrow> jsnum" where
  "Math_min NaN b = NaN"
| "Math_min a NaN = NaN"
| "Math_min a b = (if jge a b then b else a)"

fun Math_max :: "jsnum \<Rightarrow> jsnum \<Rightarrow> jsnum" where
  "Math_max NaN b = NaN"
| "Math_max a NaN = NaN"
| "Math_max a b = (if jge a b then a else b)"

text \<open>\<^verbatim>\<open>Math.round(a)\<close>: the integer nearest to \<open>a\<close>, a tie going up, which is
  \<open>\<lfloor>a + 1/2\<rfloor>\<close>, the \<^const>\<open>round\<close> of the library.\<close>

fun Math_round :: "jsnum \<Rightarrow> jsnum" where
  "Math_round (Num x) = Num (of_int (round x))"
| "Math_round a = a"

definition isNaN :: "jsnum \<Rightarrow> bool" where
  "isNaN a = (a = NaN)"

subsection \<open>parseInt and parseFloat\<close>

text \<open>
  The two built-in parsers, after ECMAScript. Both skip leading white space and read
  the longest prefix of the rest that is a numeral; what follows the numeral is ignored.
  \<^verbatim>\<open>parseInt(s)\<close> (no radix given): an optional sign, then the digits of base 10, or
  of base 16 after \<^verbatim>\<open>0x\<close> or \<^verbatim>\<open>0X\<close>; NaN (here \<open>None\<close>) when there is no digit.
\<close>

definition digit_of :: "char \<Rightarrow> nat" where
  "digit_of c =
     (let n = (of_char c :: nat)
      in if 48 \<le> n \<and> n \<le> 57 then n - 48
         else if 97 \<le> n \<and> n \<le> 122 then n - 87
         else if 65 \<le> n \<and> n \<le> 90 then n - 55
         else 36)"

definition is_radix_digit :: "nat \<Rightarrow> char \<Rightarrow> bool" where
  "is_radix_digit R c = (digit_of c < R)"

definition digits_value :: "nat \<Rightarrow> string \<Rightarrow> nat" where
  "digits_value R Z = foldl (\<lambda>a c. a * R + digit_of c) 0 Z"

definition parseInt :: "string \<Rightarrow> int option" where
  "parseInt inputString =
     (let S = trimStart inputString;
          sign = (if take 1 S = ''-'' then - 1 else 1 :: int);
          S1 = (if take 1 S = ''+'' \<or> take 1 S = ''-'' then drop 1 S else S);
          hex = (take 2 S1 = ''0x'' \<or> take 2 S1 = ''0X'');
          R = (if hex then 16 else 10);
          S2 = (if hex then drop 2 S1 else S1);
          Z = takeWhile (is_radix_digit R) S2
      in if Z = [] then None else Some (sign * int (digits_value R Z)))"

text \<open>
  \<^verbatim>\<open>parseFloat(s)\<close>: an optional sign, then \<^verbatim>\<open>Infinity\<close> or a decimal literal: digits
  with an optional fraction, or a fraction alone, and an optional exponent (\<^verbatim>\<open>e\<close> or
  \<^verbatim>\<open>E\<close>, an optional sign, at least one digit; an incomplete exponent is not part of
  the literal). NaN when no prefix is such a literal.
\<close>

definition exponent_part :: "string \<Rightarrow> int" where
  "exponent_part r =
     (if take 1 r = ''e'' \<or> take 1 r = ''E'' then
        (let s = drop 1 r;
             d = (if take 1 s = ''+'' \<or> take 1 s = ''-'' then drop 1 s else s);
             ds = takeWhile (is_radix_digit 10) d
         in if ds = [] then 0
            else if take 1 s = ''-'' then - int (digits_value 10 ds)
            else int (digits_value 10 ds))
      else 0)"

definition scale10 :: "real \<Rightarrow> int \<Rightarrow> real" where
  "scale10 m e = (if 0 \<le> e then m * 10 ^ nat e else m / 10 ^ nat (- e))"

definition parseFloat :: "string \<Rightarrow> jsnum" where
  "parseFloat inputString =
     (let t = trimStart inputString;
          sign = (if take 1 t = ''-'' then - 1 else 1 :: real);
          u = (if take 1 t = ''+'' \<or> take 1 t = ''-'' then drop 1 t else t)
      in if take 8 u = ''Infinity'' then (if sign < 0 then NegInf else PosInf)
         else
           (let ip = takeWhile (is_radix_digit 10) u;
                r1 = dropWhile (is_radix_digit 10) u;
                dot = (take 1 r1 = ''.'');
                fp = (if dot then takeWhile (is_radix_digit 10) (drop 1 r1) else []);
                r2 = (if dot then dropWhile (is_radix_digit 10) (drop 1 r1) else r1)
            in if ip = [] \<and> fp = [] then NaN
               else Num (sign * scale10
                      (real (digits_value 10 ip) + real (digits_value 10 fp) / 10 ^ length fp)
                      (exponent_part r2))))"

section \<open>Application state\<close>

text \<open>
  The state of the \<^verbatim>\<open>App\<close> component that the pipeline reads and writes: the React state
  variables, the three array refs and the global \<^verbatim>\<open>window.arduinoIrregularity\<close>
  (\<open>None\<close> while it is undefined). \<open>None\<close> in \<open>port\<close> and \<open>bpm\<close> is \<^verbatim>\<open>null\<close>. A clock
  reading (\<^verbatim>\<open>Date.now()\<close>, milliseconds) is a finite number, a \<^typ>\<open>real\<close>.
\<close>

record health_category =
  level :: string
  score :: jsnum
  desc :: string

record score_breakdown =
  brady :: int
  tachy :: int
  irregularity :: jsnum

record app =
  port :: "nat option"
  bpm :: "int option"
  lastSerialLine :: string
  lastParsedBpm :: "int option"
  lastParsedIrr :: "jsnum option"
  healthCategory :: health_category
  breakdown :: score_breakdown
  calibrating :: bool
  monitoringActive :: bool
  samplesRef :: "jsnum list"
  samples2Ref :: "jsnum list"
  beatsRef :: "real list"
  arduinoIrregularity :: "jsnum list option"

definition MAX_SAMPLES :: nat where
  "MAX_SAMPLES = 1500"

text \<open>The values of \<^verbatim>\<open>useState\<close> and \<^verbatim>\<open>useRef\<close> when the component mounts.\<close>

definition initial_app :: app where
  "initial_app =
     \<lparr>port = None, bpm = None, lastSerialLine = [], lastParsedBpm = None,
      lastParsedIrr = None,
      healthCategory = \<lparr>level = ''--'', score = Num 0, desc = []\<rparr>,
      breakdown = \<lparr>brady = 0, tachy = 0, irregularity = Num 0\<rparr>,
      calibrating = False, monitoringActive = False,
      samplesRef = [], samples2Ref = [], beatsRef = [],
      arduinoIrregularity = None\<rparr>"

section \<open>Rhythm estimate and risk score\<close>

text \<open>\<^verbatim>\<open>arr.slice(-n)\<close>: the last \<open>n\<close> elements, all of them when there are fewer.\<close>

definition slice_last :: "nat \<Rightarrow> 'a list \<Rightarrow> 'a list" where
  "slice_last n xs = drop (length xs - n) xs"

text \<open>
  \<^verbatim>\<open>
  function computeStats(arr) {
    if (!arr || arr.length === 0) return {mean:0,sd:0};
    const mean = arr.reduce((a,b) => a+b,0)/arr.length;
    const sd = Math.sqrt(arr.reduce((a,b)=>a+(b-mean)*(b-mean),0)/arr.length);
    return {mean,sd};
  }
  \<close>
\<close>

record stats =
  mean :: real
  sd :: real

definition computeStats :: "real list \<Rightarrow> stats" where
  "computeStats arr =
     (if length arr = 0 then \<lparr>mean = 0, sd = 0\<rparr>
      else
        (let mean1 = foldl (\<lambda>a b. a + b) 0 arr / real (length arr);
             sd1 = sqrt (foldl (\<lambda>a b. a + (b - mean1) * (b - mean1)) 0 arr / real (length arr))
         in \<lparr>mean = mean1, sd = sd1\<rparr>))"

text \<open>\<^verbatim>\<open>window.arduinoIrregularity && window.arduinoIrregularity.length > 0\<close>\<close>

definition hasArduinoIrr :: "app \<Rightarrow> bool" where
  "hasArduinoIrr st =
     (case arduinoIrregularity st of None \<Rightarrow> False | Some a \<Rightarrow> 0 < length a)"

text \<open>The device branch: the mean of \<^verbatim>\<open>window.arduinoIrregularity.slice(-5)\<close>.\<close>

definition device_irregularity :: "jsnum list \<Rightarrow> jsnum" where
  "device_irregularity a =
     (let recent = slice_last 5 a
      in jdiv (foldl jadd (Num 0) recent) (Num (real (length recent))))"

text \<open>The fallback branch: \<^verbatim>\<open>for (let i=1;i<beats.length;i++) ibis.push(beats[i] - beats[i-1])\<close>,
  then the statistics of the last 8 intervals.\<close>

definition inter_beat_intervals :: "real list \<Rightarrow> real list" where
  "inter_beat_intervals beats = map (\<lambda>i. beats ! i - beats ! (i - 1)) [1..<length beats]"

definition fallback_irregularity :: "real list \<Rightarrow> real" where
  "fallback_irregularity beats =
     (let ibis = inter_beat_intervals beats;
          last8 = slice_last 8 ibis;
          st = computeStats last8;
          cv = (if 0 < mean st then sd st / mean st else 0)
      in min 1 (cv * 3))"

definition rhythm_irregularity :: "app \<Rightarrow> jsnum" where
  "rhythm_irregularity st =
     (case arduinoIrregularity st of
        None \<Rightarrow> Num (fallback_irregularity (beatsRef st))
      | Some a \<Rightarrow>
          if 0 < length a then device_irregularity a
          else Num (fallback_irregularity (beatsRef st)))"

text \<open>\<^verbatim>\<open>const hr = bpm || 70\<close>: 70 when \<open>bpm\<close> is null or 0.\<close>

definition heart_rate :: "int option \<Rightarrow> int" where
  "heart_rate b = (case b of None \<Rightarrow> 70 | Some n \<Rightarrow> if n = 0 then 70 else n)"

text \<open>The scoring part of \<^verbatim>\<open>compute\<close>, from \<open>hr\<close> and the irregularity to the two values
  it publishes with \<^verbatim>\<open>setBreakdown\<close> and \<^verbatim>\<open>setHealthCategory\<close>.\<close>

definition score_rhythm :: "int \<Rightarrow> jsnum \<Rightarrow> score_breakdown \<times> health_category" where
  "score_rhythm hr irr =
     (let bradyScore = (if hr < 50 then 40 else if hr < 60 then 20 else 0 :: int);
          tachyScore = (if 120 < hr then 40 else if 100 < hr then 20 else 0 :: int);
          irrScore = Math_round (jmul irr (Num 40));
          score0 = jadd (jadd (Num (of_int bradyScore)) (Num (of_int tachyScore))) irrScore;
          score1 = Math_max (Num 0) (Math_min (Num 100) score0);
          level1 = (if jge score1 (Num 70) then ''High''
                    else if jge score1 (Num 35) then ''Moderate'' else ''Normal'');
          desc1 = (if jge score1 (Num 70) then
                     ''High concern: heart rate or rhythm suggest elevated risk ''
                       @ [CHR 0xE2, CHR 0x80, CHR 0x94]
                       @ '' seek medical attention if symptomatic.''
                   else if jge score1 (Num 35) then
                     ''Moderate concern: some abnormal findings. Consider monitoring and consulting a clinician.''
                   else ''Heart rate and rhythm are within typical ranges.'')
      in (\<lparr>brady = bradyScore, tachy = tachyScore, irregularity = irrScore\<rparr>,
          \<lparr>level = level1, score = score1, desc = desc1\<rparr>))"

text \<open>\<^verbatim>\<open>compute\<close>, run every second. The early return publishes a health category and
  leaves \<open>breakdown\<close> as it was.\<close>

definition compute :: "app \<Rightarrow> app" where
  "compute st =
     (let beats = beatsRef st
      in if \<not> hasArduinoIrr st \<and> length beats < 3 then
           st\<lparr>healthCategory :=
                \<lparr>level = ''Insufficient data'', score = Num 0,
                 desc = ''Need at least 3 beats to assess rhythm.''\<rparr>\<rparr>
         else
           (case score_rhythm (heart_rate (bpm st)) (rhythm_irregularity st) of
              (b, h) \<Rightarrow> st\<lparr>breakdown := b, healthCategory := h\<rparr>))"

section \<open>Ingestion\<close>

subsection \<open>The four buffers\<close>

text \<open>
  \<^verbatim>\<open>arr.splice(0, k)\<close> removes the first \<open>k\<close> elements (none when \<open>k\<close> is not positive, which
  is what the subtraction of \<^typ>\<open>nat\<close> gives), \<^verbatim>\<open>arr.shift()\<close> the first one.
  The two sample buffers are pushed together and trimmed under one test, on the length of
  \<open>samplesRef\<close>.
\<close>

definition push_samples :: "jsnum list \<times> jsnum list \<Rightarrow> jsnum \<times> jsnum \<Rightarrow> jsnum list \<times> jsnum list" where
  "push_samples bufs v =
     (case bufs of (samples, samples2) \<Rightarrow>
      case v of (val2, val1) \<Rightarrow>
        (let s = samples @ [val2];
             s2 = samples2 @ [val1]
         in if MAX_SAMPLES < length s then
              (drop (length s - MAX_SAMPLES) s, drop (length s2 - MAX_SAMPLES) s2)
            else (s, s2)))"

definition push_beat :: "real list \<Rightarrow> real \<Rightarrow> real list" where
  "push_beat beats now =
     (let b = beats @ [now]
      in if 50 < length b then drop (length b - 50) b else b)"

definition push_irregularity :: "jsnum list option \<Rightarrow> jsnum \<Rightarrow> jsnum list option" where
  "push_irregularity w x =
     (let a = (case w of None \<Rightarrow> [] | Some a0 \<Rightarrow> a0) @ [x]
      in Some (if 10 < length a then drop 1 a else a))"

subsection \<open>connectSerial\<close>

text \<open>
  \<^verbatim>\<open>connectSerial\<close> is modelled by its events. \<open>port_opened\<close>: the port was requested and
  opened (\<^verbatim>\<open>setPort; setCalibrating(true); setMonitoringActive(false)\<close>).
  \<open>calibration_timer\<close>: the callback of \<^verbatim>\<open>setTimeout(..., 4000)\<close>.
  \<open>read_value\<close>: one turn of the read loop, for the line \<open>value\<close> that the framer
  delivered. \<open>connect_error\<close>: the \<^verbatim>\<open>catch\<close> block, reached when the request, the
  opening or a read fails.

  The read loop sees \<^verbatim>\<open>monitoringActive\<close> as it was when \<^verbatim>\<open>connectSerial\<close> was called
  (the closure keeps the value of that render): this is the parameter
  \<open>monitoringActive0\<close>. \<open>now\<close> is what \<^verbatim>\<open>Date.now()\<close> returns in that turn.
\<close>

definition port_opened :: "nat \<Rightarrow> app \<Rightarrow> app" where
  "port_opened requestedPort st =
     st\<lparr>port := Some requestedPort, calibrating := True, monitoringActive := False\<rparr>"

definition calibration_timer :: "app \<Rightarrow> app" where
  "calibration_timer st = st\<lparr>calibrating := False, monitoringActive := True\<rparr>"

definition connect_error :: "app \<Rightarrow> app" where
  "connect_error st = st\<lparr>calibrating := False\<rparr>"

text \<open>Lines 321 to 355: what the loop does with a line whose two lead fields parsed.
  \<open>arduinoBPM\<close> is \<open>None\<close> when it is \<^verbatim>\<open>null\<close> or NaN, which the test
  \<^verbatim>\<open>arduinoBPM && arduinoBPM > 0\<close> treats alike; \<open>arduinoIrr\<close> is \<open>None\<close> when it is
  \<^verbatim>\<open>null\<close>.\<close>

definition store_reading ::
  "bool \<Rightarrow> real \<Rightarrow> jsnum \<Rightarrow> jsnum \<Rightarrow> int option \<Rightarrow> jsnum option \<Rightarrow> app \<Rightarrow> app" where
  "store_reading monitoringActive0 now val1 val2 arduinoBPM arduinoIrr st =
     (case push_samples (samplesRef st, samples2Ref st) (val2, val1) of
        (s, s2) \<Rightarrow>
          (let st1 = st\<lparr>samplesRef := s, samples2Ref := s2\<rparr>
           in case arduinoBPM of
                None \<Rightarrow> st1
              | Some b \<Rightarrow>
                  if b \<noteq> 0 \<and> 0 < b then
                    (let st2 = st1\<lparr>bpm := Some b, lastParsedBpm := Some b,
                                   beatsRef := push_beat (beatsRef st1) now\<rparr>;
                         st3 = (case arduinoIrr of
                                  None \<Rightarrow> st2
                                | Some x \<Rightarrow>
                                    if jge x (Num 0) then
                                      st2\<lparr>arduinoIrregularity :=
                                             push_irregularity (arduinoIrregularity st2) x,
                                          lastParsedIrr := Some x\<rparr>
                                    else st2)
                     in if \<not> monitoringActive0 then st3\<lparr>monitoringActive := True\<rparr> else st3)
                  else st1))"

definition is_status_line :: "string \<Rightarrow> bool" where
  "is_status_line line =
     (js_includes line ''Calibration'' \<or> js_includes line ''Starting''
      \<or> js_includes line ''Baseline'' \<or> js_includes line ''Gain'')"

definition read_value :: "bool \<Rightarrow> real \<Rightarrow> string \<Rightarrow> app \<Rightarrow> app" where
  "read_value monitoringActive0 now value st =
     (if value = [] then st
      else
        (let line = js_trim value;
             st1 = st\<lparr>lastSerialLine := line\<rparr>
         in if is_status_line line then
              (if js_includes line ''Complete'' then st1\<lparr>calibrating := False\<rparr> else st1)
            else
              (case js_split (CHR '','') line of
                 p0 # p1 # rest \<Rightarrow>
                   (let val1 = parseFloat p0;
                        val2 = parseFloat p1;
                        arduinoBPM = (case rest of [] \<Rightarrow> None | p2 # _ \<Rightarrow> parseInt p2);
                        arduinoIrr =
                          (case rest of p2 # p3 # _ \<Rightarrow> Some (parseFloat p3) | _ \<Rightarrow> None)
                    in if \<not> isNaN val1 \<and> \<not> isNaN val2 then
                         store_reading monitoringActive0 now val1 val2 arduinoBPM arduinoIrr st1
                       else st1)
               | _ \<Rightarrow> st1)))"

subsection \<open>disconnectSerial and startMonitoring\<close>

text \<open>
  \<^verbatim>\<open>
  if (!port) return;
  try { await port.close(); } catch(e){}
  setPort(null); setCalibrating(false); setMonitoringActive(false); setBpm(null);
  samplesRef.current = []; samples2Ref.current = []; beatsRef.current = [];
  if (window.arduinoIrregularity) window.arduinoIrregularity = [];
  \<close>
\<close>

definition disconnectSerial :: "app \<Rightarrow> app" where
  "disconnectSerial st =
     (case port st of
        None \<Rightarrow> st
      | Some p \<Rightarrow>
          st\<lparr>port := None, calibrating := False, monitoringActive := False, bpm := None,
             samplesRef := [], samples2Ref := [], beatsRef := [],
             arduinoIrregularity :=
               (case arduinoIrregularity st of None \<Rightarrow> None | Some a \<Rightarrow> Some [])\<rparr>)"

definition startMonitoring :: "app \<Rightarrow> app" where
  "startMonitoring st = st\<lparr>monitoringActive := True\<rparr>"

subsection \<open>Runs of the application\<close>

text \<open>
  The runtime is single-threaded: the handlers above run one at a time, each to its end.
  A run of the application is the sequence of the handlers that ran.
\<close>

datatype event =
    PortOpened nat
  | CalibrationTimer
  | ReadValue bool real string
  | ConnectError
  | Disconnect
  | StartMonitoring
  | Compute

fun step :: "app \<Rightarrow> event \<Rightarrow> app" where
  "step st (PortOpened p) = port_opened p st"
| "step st CalibrationTimer = calibration_timer st"
| "step st (ReadValue monitoringActive0 now v) = read_value monitoringActive0 now v st"
| "step st ConnectError = connect_error st"
| "step st Disconnect = disconnectSerial st"
| "step st StartMonitoring = startMonitoring st"
| "step st Compute = compute st"

definition run :: "app \<Rightarrow> event list \<Rightarrow> app" where
  "run st es = foldl step st es"

text \<open>Every buffer within its capacity, the two sample buffers of one length.\<close>

definition buffers_bounded :: "app \<Rightarrow> bool" where
  "buffers_bounded st =
     (length (samplesRef st) \<le> MAX_SAMPLES
      \<and> length (samples2Ref st) = length (samplesRef st)
      \<and> length (beatsRef st) \<le> 50
      \<and> (case arduinoIrregularity st of None \<Rightarrow> True | Some a \<Rightarrow> length a \<le> 10))"

section \<open>The rhythm estimate in the words of the specification\<close>




section \<open>Numeric prefixes\<close>





section \<open>Line framing\<close>

lemma js_split_nonempty: "js_split d s \<noteq> []"
  by (induction s) (auto split: list.splits)

lemma js_split_cons_other:
  "c \<noteq> d \<Longrightarrow> js_split d (c # cs) = (c # hd (js_split d cs)) # tl (js_split d cs)"
  using js_split_nonempty [of d cs] by (cases "js_split d cs") auto

lemma js_split_append:
  "js_split d (a @ b) = butlast (js_split d a) @ js_split d (last (js_split d a) @ b)"
proof (induction a)
  case Nil
  show ?case by simp
next
  case (Cons c cs)
  show ?case
  proof (cases "c = d")
    case True
    with Cons show ?thesis
      by (simp add: js_split_nonempty)
  next
    case False
    obtain p ps where sp: "js_split d cs = p # ps"
      using js_split_nonempty [of d cs] by (cases "js_split d cs") auto
    show ?thesis
    proof (cases ps)
      case Nil
      with False sp Cons show ?thesis
        by (simp add: js_split_cons_other)
    next
      case (Cons q qs)
      with False sp Cons.IH show ?thesis
        by (simp add: js_split_cons_other)
    qed
  qed
qed

lemma length_js_split: "length (js_split d s) = Suc (count_list s d)"
  using js_split_nonempty [of d]
  by (induction s) (auto split: list.splits)

lemma js_split_no_delim: "p \<in> set (js_split d s) \<Longrightarrow> d \<notin> set p"
proof (induction s arbitrary: p)
  case Nil
  then show ?case by simp
next
  case (Cons c cs)
  then show ?case
    by (auto split: if_splits list.splits)
qed

lemma js_split_rejoin:
  "concat (map (\<lambda>l. l @ [d]) (butlast (js_split d s))) @ last (js_split d s) = s"
proof (induction s)
  case Nil
  show ?case by simp
next
  case (Cons c cs)
  obtain p ps where sp: "js_split d cs = p # ps"
    using js_split_nonempty [of d cs] by (cases "js_split d cs") auto
  with Cons show ?case
    by (cases ps) (auto split: if_splits)
qed

lemma js_split_single: "d \<notin> set s \<Longrightarrow> js_split d s = [s]"
  by (induction s) auto

lemma last_js_split_no_delim: "d \<notin> set (last (js_split d s))"
  using js_split_no_delim [of "last (js_split d s)" d s] js_split_nonempty [of d s]
  by simp

lemma feed_split:
  "nl \<notin> set container \<Longrightarrow>
   feed container chunks =
     (last (js_split nl (container @ concat chunks)),
      butlast (js_split nl (container @ concat chunks)))"
proof (induction chunks arbitrary: container)
  case Nil
  then show ?case
    by (simp add: js_split_single)
next
  case (Cons chunk chunks)
  let ?c1 = "last (js_split nl (container @ chunk))"
  have c1: "nl \<notin> set ?c1"
    by (rule last_js_split_no_delim)
  have step: "js_split nl ((container @ chunk) @ concat chunks) =
      butlast (js_split nl (container @ chunk)) @ js_split nl (?c1 @ concat chunks)"
    by (rule js_split_append)
  have ne: "js_split nl (?c1 @ concat chunks) \<noteq> []"
    by (rule js_split_nonempty)
  from Cons.IH [OF c1] step ne show ?case
    by (simp add: transform_def Let_def butlast_append)
qed

text \<open>
  Claim C5. For a text \<open>str\<close> and any two ways \<open>chunks\<close>, \<open>chunks'\<close> of cutting it into
  chunks, the framer ends with the same container and the same emitted lines, and emits
  the same lines after \<open>flush\<close>. The lines emitted by \<open>transform\<close> are as many as the line
  feeds of the text; none contains a line feed, nor does the container; the lines, each
  followed by a line feed, and then the container, spell the text, so the lines are what
  stands between successive line feeds. \<open>flush\<close> adds the container as one more line
  exactly when it is not empty: \<open>N\<close> or \<open>N + 1\<close> lines in all.
\<close>

theorem line_framer_chunk_invariance:
  assumes "concat chunks = str" and "concat chunks' = str"
  shows "feed constructor_container chunks = feed constructor_container chunks'
       \<and> run_framer chunks = run_framer chunks'
       \<and> length (snd (feed constructor_container chunks)) = count_list str nl
       \<and> (\<forall>l \<in> set (snd (feed constructor_container chunks)). nl \<notin> set l)
       \<and> nl \<notin> set (fst (feed constructor_container chunks))
       \<and> concat (map (\<lambda>l. l @ [nl]) (snd (feed constructor_container chunks)))
            @ fst (feed constructor_container chunks) = str
       \<and> run_framer chunks =
            snd (feed constructor_container chunks)
              @ (if fst (feed constructor_container chunks) \<noteq> []
                 then [fst (feed constructor_container chunks)] else [])
       \<and> (length (run_framer chunks) = count_list str nl
            \<or> length (run_framer chunks) = count_list str nl + 1)"
proof -
  have f: "feed constructor_container cs =
      (last (js_split nl (concat cs)), butlast (js_split nl (concat cs)))" for cs
    using feed_split [of "[]" cs] by (simp add: constructor_container_def)
  have len: "length (butlast (js_split nl str)) = count_list str nl"
    by (simp add: length_js_split)
  have nodelim: "\<forall>l \<in> set (butlast (js_split nl str)). nl \<notin> set l"
    using js_split_no_delim [of _ nl str] by (auto dest: in_set_butlastD)
  from assms f [of chunks] f [of chunks'] len nodelim
    last_js_split_no_delim [of nl str] js_split_rejoin [of nl str]
  show ?thesis
    by (simp add: run_framer_def flush_def)
qed

text \<open>The text of two records, an empty line and an unfinished one, cut inside a field
  and in one piece.\<close>

theorem line_framer_chunk_invariance_witness:
  "concat [''0.1,0.'', ''2,70'' @ [nl] @ ''1,'', ''2'' @ [nl, nl] @ ''x'']
     = ''0.1,0.2,70'' @ [nl] @ ''1,2'' @ [nl, nl] @ ''x''
   \<and> concat [''0.1,0.2,70'' @ [nl] @ ''1,2'' @ [nl, nl] @ ''x'']
     = ''0.1,0.2,70'' @ [nl] @ ''1,2'' @ [nl, nl] @ ''x''
   \<and> run_framer [''0.1,0.'', ''2,70'' @ [nl] @ ''1,'', ''2'' @ [nl, nl] @ ''x'']
       = run_framer [''0.1,0.2,70'' @ [nl] @ ''1,2'' @ [nl, nl] @ ''x'']
   \<and> run_framer [''0.1,0.2,70'' @ [nl] @ ''1,2'' @ [nl, nl] @ ''x'']
       = [''0.1,0.2,70'', ''1,2'', [], ''x'']"
proof -
  have a: "concat [''0.1,0.'', ''2,70'' @ [nl] @ ''1,'', ''2'' @ [nl, nl] @ ''x'']
      = ''0.1,0.2,70'' @ [nl] @ ''1,2'' @ [nl, nl] @ ''x''"
    by simp
  have b: "concat [''0.1,0.2,70'' @ [nl] @ ''1,2'' @ [nl, nl] @ ''x'']
      = ''0.1,0.2,70'' @ [nl] @ ''1,2'' @ [nl, nl] @ ''x''"
    by simp
  have c: "run_framer [''0.1,0.2,70'' @ [nl] @ ''1,2'' @ [nl, nl] @ ''x'']
      = [''0.1,0.2,70'', ''1,2'', [], ''x'']"
    by (simp add: run_framer_def constructor_container_def transform_def flush_def nl_def)
  from line_framer_chunk_invariance [OF a b] a b c show ?thesis
    by blast
qed

section \<open>Ring buffers\<close>

lemma slice_last_length: "length (slice_last n xs) = min n (length xs)"
  by (simp add: slice_last_def)

lemma slice_last_all: "length xs \<le> n \<Longrightarrow> slice_last n xs = xs"
  by (simp add: slice_last_def)

lemma slice_last_append:
  "slice_last n (slice_last n xs @ ys) = slice_last n (xs @ ys)"
proof (cases "length xs \<le> n")
  case True
  then show ?thesis
    by (simp add: slice_last_def)
next
  case False
  then have "length xs + length ys - (length xs - n + n) + (length xs - n)
      = length xs + length ys - n"
    by simp
  with False show ?thesis
    by (simp add: slice_last_def)
qed

lemma push_beat_slice: "push_beat b t = slice_last 50 (b @ [t])"
  by (simp add: push_beat_def slice_last_def Let_def)

lemma foldl_push_beat:
  "foldl push_beat (slice_last 50 b) ts = slice_last 50 (b @ ts)"
proof (induction ts arbitrary: b)
  case Nil
  show ?case by simp
next
  case (Cons t ts)
  have "push_beat (slice_last 50 b) t = slice_last 50 (b @ [t])"
    by (simp add: push_beat_slice slice_last_append)
  with Cons [of "b @ [t]"] show ?case
    by simp
qed

lemma push_irregularity_slice:
  assumes "length a \<le> 10"
  shows "push_irregularity (Some a) x = Some (slice_last 10 (a @ [x]))"
proof (cases "length a = 10")
  case True
  then show ?thesis
    by (simp add: push_irregularity_def slice_last_def Let_def)
next
  case False
  with assms have "length a < 10"
    by simp
  then show ?thesis
    by (simp add: push_irregularity_def slice_last_def Let_def)
qed

lemma push_irregularity_None:
  "push_irregularity None x = Some [x]"
  by (simp add: push_irregularity_def)

lemma foldl_push_irregularity:
  "foldl push_irregularity (Some (slice_last 10 a)) xs = Some (slice_last 10 (a @ xs))"
proof (induction xs arbitrary: a)
  case Nil
  show ?case by simp
next
  case (Cons x xs)
  have "push_irregularity (Some (slice_last 10 a)) x = Some (slice_last 10 (a @ [x]))"
    by (simp add: push_irregularity_slice slice_last_length slice_last_append)
  with Cons [of "a @ [x]"] show ?case
    by simp
qed

lemma push_samples_slice:
  "length s = length s2 \<Longrightarrow>
   push_samples (s, s2) v =
     (slice_last MAX_SAMPLES (s @ [fst v]), slice_last MAX_SAMPLES (s2 @ [snd v]))"
  by (cases v) (simp add: push_samples_def slice_last_def Let_def)

lemma foldl_push_samples:
  "length s = length s2 \<Longrightarrow>
   foldl push_samples (slice_last MAX_SAMPLES s, slice_last MAX_SAMPLES s2) vs =
     (slice_last MAX_SAMPLES (s @ map fst vs), slice_last MAX_SAMPLES (s2 @ map snd vs))"
proof (induction vs arbitrary: s s2)
  case Nil
  show ?case by simp
next
  case (Cons v vs)
  from Cons.prems
  have "push_samples (slice_last MAX_SAMPLES s, slice_last MAX_SAMPLES s2) v =
      (slice_last MAX_SAMPLES (s @ [fst v]), slice_last MAX_SAMPLES (s2 @ [snd v]))"
    by (simp add: push_samples_slice slice_last_length slice_last_append)
  with Cons.IH [of "s @ [fst v]" "s2 @ [snd v]"] Cons.prems show ?case
    by simp
qed

lemma store_reading_bounded:
  "buffers_bounded st \<Longrightarrow> buffers_bounded (store_reading m now v1 v2 b i st)"
  by (auto simp: store_reading_def buffers_bounded_def push_samples_def push_beat_def
      push_irregularity_def Let_def split: option.splits)

lemma read_value_bounded:
  "buffers_bounded st \<Longrightarrow> buffers_bounded (read_value m now v st)"
proof -
  assume inv: "buffers_bounded st"
  have upd: "buffers_bounded (st\<lparr>lastSerialLine := l\<rparr>)" for l
    using inv by (simp add: buffers_bounded_def)
  have upd2: "buffers_bounded (st\<lparr>lastSerialLine := l, calibrating := False\<rparr>)" for l
    using inv by (simp add: buffers_bounded_def)
  show ?thesis
    using inv upd upd2 store_reading_bounded [OF upd]
    by (simp add: read_value_def Let_def split: list.splits)
qed

lemma step_bounded: "buffers_bounded st \<Longrightarrow> buffers_bounded (step st e)"
proof (cases e)
  case (ReadValue m now v)
  assume "buffers_bounded st"
  with ReadValue show ?thesis
    by (simp add: read_value_bounded)
next
  case Compute
  assume "buffers_bounded st"
  with Compute show ?thesis
    by (simp add: compute_def buffers_bounded_def Let_def split: prod.splits)
qed (auto simp: buffers_bounded_def port_opened_def calibration_timer_def connect_error_def
      disconnectSerial_def startMonitoring_def split: option.splits)

lemma run_bounded: "buffers_bounded st \<Longrightarrow> buffers_bounded (run st es)"
  unfolding run_def
  by (induction es arbitrary: st) (simp_all add: step_bounded)

lemma initial_bounded: "buffers_bounded initial_app"
  by (simp add: buffers_bounded_def initial_app_def)

lemma slice_last_append_long:
  "n \<le> length ys \<Longrightarrow> slice_last n (xs @ ys) = drop (length ys - n) ys"
  by (simp add: slice_last_def)

text \<open>
  Claim C4. Starting from buffers within their capacity (empty ones, as at the start of a
  session, among them), after more pushes than the capacity each of the four buffers holds
  exactly the last \<open>C\<close> pushed items, in push order, and has length \<open>C\<close>: the two sample
  buffers (\<open>C = 1500\<close>, pushed together), the beat time stamps (\<open>C = 50\<close>) and the device
  irregularity history (\<open>C = 10\<close>). In every run of the application from its initial
  state no buffer exceeds its capacity.
\<close>

theorem ring_buffers_fifo:
  "(length s \<le> MAX_SAMPLES \<and> length s2 = length s \<and> MAX_SAMPLES < length vs \<longrightarrow>
      foldl push_samples (s, s2) vs =
        (drop (length vs - MAX_SAMPLES) (map fst vs), drop (length vs - MAX_SAMPLES) (map snd vs))
      \<and> length (fst (foldl push_samples (s, s2) vs)) = MAX_SAMPLES
      \<and> length (snd (foldl push_samples (s, s2) vs)) = MAX_SAMPLES)
   \<and> (length b \<le> 50 \<and> 50 < length ts \<longrightarrow>
        foldl push_beat b ts = drop (length ts - 50) ts
        \<and> length (foldl push_beat b ts) = 50)
   \<and> ((case w of None \<Rightarrow> True | Some a \<Rightarrow> length a \<le> 10) \<and> 10 < length xs \<longrightarrow>
        foldl push_irregularity w xs = Some (drop (length xs - 10) xs)
        \<and> length (drop (length xs - 10) xs) = 10)
   \<and> buffers_bounded (run initial_app es)"
proof (intro conjI impI)
  assume a: "length s \<le> MAX_SAMPLES \<and> length s2 = length s \<and> MAX_SAMPLES < length vs"
  then have "foldl push_samples (slice_last MAX_SAMPLES s, slice_last MAX_SAMPLES s2) vs =
      (slice_last MAX_SAMPLES (s @ map fst vs), slice_last MAX_SAMPLES (s2 @ map snd vs))"
    by (simp add: foldl_push_samples)
  with a show e: "foldl push_samples (s, s2) vs =
      (drop (length vs - MAX_SAMPLES) (map fst vs), drop (length vs - MAX_SAMPLES) (map snd vs))"
    by (simp add: slice_last_all slice_last_append_long)
  from a show "length (fst (foldl push_samples (s, s2) vs)) = MAX_SAMPLES"
    and "length (snd (foldl push_samples (s, s2) vs)) = MAX_SAMPLES"
    unfolding e by simp_all
next
  assume a: "length b \<le> 50 \<and> 50 < length ts"
  have "foldl push_beat (slice_last 50 b) ts = slice_last 50 (b @ ts)"
    by (rule foldl_push_beat)
  with a show e: "foldl push_beat b ts = drop (length ts - 50) ts"
    by (simp add: slice_last_all slice_last_append_long)
  from a show "length (foldl push_beat b ts) = 50"
    unfolding e by simp
next
  assume a: "(case w of None \<Rightarrow> True | Some a \<Rightarrow> length a \<le> 10) \<and> 10 < length xs"
  then obtain x ys where xs: "xs = x # ys"
    by (cases xs) auto
  show "foldl push_irregularity w xs = Some (drop (length xs - 10) xs)"
  proof (cases w)
    case None
    have "foldl push_irregularity (Some (slice_last 10 [x])) ys = Some (slice_last 10 ([x] @ ys))"
      by (rule foldl_push_irregularity)
    with a None xs show ?thesis
      by (simp add: push_irregularity_None slice_last_def)
  next
    case (Some h)
    have "foldl push_irregularity (Some (slice_last 10 h)) xs = Some (slice_last 10 (h @ xs))"
      by (rule foldl_push_irregularity)
    with a Some show ?thesis
      by (simp add: slice_last_all slice_last_append_long)
  qed
  from a show "length (drop (length xs - 10) xs) = 10"
    by simp
next
  show "buffers_bounded (run initial_app es)"
    by (rule run_bounded [OF initial_bounded])
qed

text \<open>1501 pushes into the empty sample buffers; 51 time stamps pushed after two others;
  11 irregularities pushed into an undefined history.\<close>

theorem ring_buffers_fifo_witness:
  "length ([] :: jsnum list) \<le> MAX_SAMPLES
   \<and> MAX_SAMPLES < length (replicate 1501 (Num 0, Num 1))
   \<and> foldl push_samples ([], []) (replicate 1501 (Num 0, Num 1))
       = (replicate 1500 (Num 0), replicate 1500 (Num 1))
   \<and> length [8, 9 :: real] \<le> 50
   \<and> 50 < length (3 # replicate 50 (4 :: real))
   \<and> foldl push_beat [8, 9] (3 # replicate 50 4) = replicate 50 4
   \<and> 10 < length (Num 7 # replicate 10 (Num 0))
   \<and> foldl push_irregularity None (Num 7 # replicate 10 (Num 0)) = Some (replicate 10 (Num 0))"
  using ring_buffers_fifo [of "[]" "[]" "replicate 1501 (Num 0, Num 1)" "[8, 9]"
      "3 # replicate 50 4" None "Num 7 # replicate 10 (Num 0)" "[]"]
  by (simp add: MAX_SAMPLES_def)

section \<open>The rhythm estimate\<close>

















section \<open>The risk scorer\<close>

lemma compute_insufficient:
  "\<not> hasArduinoIrr st \<Longrightarrow> length (beatsRef st) < 3 \<Longrightarrow>
   compute st = st\<lparr>healthCategory :=
     \<lparr>level = ''Insufficient data'', score = Num 0,
      desc = ''Need at least 3 beats to assess rhythm.''\<rparr>\<rparr>"
  by (simp add: compute_def Let_def)

lemma compute_scored:
  "hasArduinoIrr st \<or> 3 \<le> length (beatsRef st) \<Longrightarrow>
   compute st = st\<lparr>breakdown :=
       fst (score_rhythm (heart_rate (bpm st)) (rhythm_irregularity st)),
     healthCategory :=
       snd (score_rhythm (heart_rate (bpm st)) (rhythm_irregularity st))\<rparr>"
  by (auto simp: compute_def Let_def case_prod_beta)

lemma compute_frame:
  "port (compute st) = port st"
  "bpm (compute st) = bpm st"
  "calibrating (compute st) = calibrating st"
  "monitoringActive (compute st) = monitoringActive st"
  "samplesRef (compute st) = samplesRef st"
  "samples2Ref (compute st) = samples2Ref st"
  "beatsRef (compute st) = beatsRef st"
  "arduinoIrregularity (compute st) = arduinoIrregularity st"
  by (simp_all add: compute_def Let_def case_prod_beta)

lemma disconnectSerial_clears:
  assumes "port st = Some p"
  shows "samplesRef (disconnectSerial st) = []"
    and "samples2Ref (disconnectSerial st) = []"
    and "beatsRef (disconnectSerial st) = []"
    and "\<not> hasArduinoIrr (disconnectSerial st)"
    and "port (disconnectSerial st) = None"
    and "calibrating (disconnectSerial st) = False"
    and "monitoringActive (disconnectSerial st) = False"
    and "bpm (disconnectSerial st) = None"
    and "breakdown (disconnectSerial st) = breakdown st"
    and "healthCategory (disconnectSerial st) = healthCategory st"
  using assms by (simp_all add: disconnectSerial_def hasArduinoIrr_def split: option.splits)






text \<open>
  Claim C3. The device history is empty when \<^verbatim>\<open>window.arduinoIrregularity\<close> is undefined or
  an empty array. When it is empty and there are fewer than 3 beat time stamps, \<open>compute\<close>
  publishes the level \<open>Insufficient data\<close> with score 0 and computes nothing; in every
  other state it publishes the score and the category computed from the heart rate and
  the rhythm estimate, and the level is one of High, Moderate and Normal.
\<close>

theorem insufficient_data_short_circuit:
  "(hasArduinoIrr st \<longleftrightarrow> arduinoIrregularity st \<noteq> None \<and> arduinoIrregularity st \<noteq> Some [])
   \<and> (\<not> hasArduinoIrr st \<and> length (beatsRef st) < 3 \<longrightarrow>
        compute st = st\<lparr>healthCategory :=
          \<lparr>level = ''Insufficient data'', score = Num 0,
           desc = ''Need at least 3 beats to assess rhythm.''\<rparr>\<rparr>)
   \<and> (\<not> (\<not> hasArduinoIrr st \<and> length (beatsRef st) < 3) \<longrightarrow>
        compute st = st\<lparr>breakdown :=
              fst (score_rhythm (heart_rate (bpm st)) (rhythm_irregularity st)),
            healthCategory :=
              snd (score_rhythm (heart_rate (bpm st)) (rhythm_irregularity st))\<rparr>
        \<and> level (healthCategory (compute st)) \<in> {''High'', ''Moderate'', ''Normal''})"
proof -
  have h: "hasArduinoIrr st \<longleftrightarrow>
      arduinoIrregularity st \<noteq> None \<and> arduinoIrregularity st \<noteq> Some []"
    by (simp add: hasArduinoIrr_def split: option.splits)
  have l: "level (snd (score_rhythm hr irr)) \<in> {''High'', ''Moderate'', ''Normal''}" for hr irr
    by (simp add: score_rhythm_def Let_def)
  have c: "compute st = st\<lparr>breakdown :=
              fst (score_rhythm (heart_rate (bpm st)) (rhythm_irregularity st)),
            healthCategory :=
              snd (score_rhythm (heart_rate (bpm st)) (rhythm_irregularity st))\<rparr>"
    if "\<not> (\<not> hasArduinoIrr st \<and> length (beatsRef st) < 3)"
    using that by (auto simp: compute_def Let_def case_prod_beta)
  have i: "compute st = st\<lparr>healthCategory :=
          \<lparr>level = ''Insufficient data'', score = Num 0,
           desc = ''Need at least 3 beats to assess rhythm.''\<rparr>\<rparr>"
    if "\<not> hasArduinoIrr st \<and> length (beatsRef st) < 3"
    using that by (simp add: compute_def Let_def)
  show ?thesis
  proof (intro conjI impI)
    show "hasArduinoIrr st \<longleftrightarrow>
        arduinoIrregularity st \<noteq> None \<and> arduinoIrregularity st \<noteq> Some []"
      by (rule h)
  next
    assume "\<not> hasArduinoIrr st \<and> length (beatsRef st) < 3"
    then show "compute st = st\<lparr>healthCategory :=
          \<lparr>level = ''Insufficient data'', score = Num 0,
           desc = ''Need at least 3 beats to assess rhythm.''\<rparr>\<rparr>"
      by (rule i)
  next
    assume n: "\<not> (\<not> hasArduinoIrr st \<and> length (beatsRef st) < 3)"
    then show "compute st = st\<lparr>breakdown :=
              fst (score_rhythm (heart_rate (bpm st)) (rhythm_irregularity st)),
            healthCategory :=
              snd (score_rhythm (heart_rate (bpm st)) (rhythm_irregularity st))\<rparr>"
      by (rule c)
    from c [OF n] l [of "heart_rate (bpm st)" "rhythm_irregularity st"]
    show "level (healthCategory (compute st)) \<in> {''High'', ''Moderate'', ''Normal''}"
      by (simp del: insert_iff)
  qed
qed

text \<open>Two beats and no device history: insufficient data. One device entry and no beat: a
  score.\<close>

theorem insufficient_data_short_circuit_witness:
  "\<not> hasArduinoIrr (initial_app\<lparr>beatsRef := [1000, 2000]\<rparr>)
   \<and> length (beatsRef (initial_app\<lparr>beatsRef := [1000, 2000]\<rparr>)) < 3
   \<and> level (healthCategory (compute (initial_app\<lparr>beatsRef := [1000, 2000]\<rparr>)))
       = ''Insufficient data''
   \<and> score (healthCategory (compute (initial_app\<lparr>beatsRef := [1000, 2000]\<rparr>))) = Num 0
   \<and> \<not> (\<not> hasArduinoIrr (initial_app\<lparr>arduinoIrregularity := Some [Num 1]\<rparr>)
          \<and> length (beatsRef (initial_app\<lparr>arduinoIrregularity := Some [Num 1]\<rparr>)) < 3)
   \<and> level (healthCategory (compute (initial_app\<lparr>arduinoIrregularity := Some [Num 1]\<rparr>)))
       \<in> {''High'', ''Moderate'', ''Normal''}"
proof -
  let ?a = "initial_app\<lparr>beatsRef := [1000, 2000]\<rparr>"
  let ?b = "initial_app\<lparr>arduinoIrregularity := Some [Num 1]\<rparr>"
  have h1: "\<not> hasArduinoIrr ?a \<and> length (beatsRef ?a) < 3"
    by (simp add: initial_app_def hasArduinoIrr_def)
  have h2: "\<not> (\<not> hasArduinoIrr ?b \<and> length (beatsRef ?b) < 3)"
    by (simp add: hasArduinoIrr_def)
  from insufficient_data_short_circuit [of ?a] h1
  have c1: "compute ?a = ?a\<lparr>healthCategory :=
          \<lparr>level = ''Insufficient data'', score = Num 0,
           desc = ''Need at least 3 beats to assess rhythm.''\<rparr>\<rparr>"
    by blast
  from insufficient_data_short_circuit [of ?b] h2
  have c2: "level (healthCategory (compute ?b)) \<in> {''High'', ''Moderate'', ''Normal''}"
    by blast
  have l: "level (healthCategory (compute ?a)) = ''Insufficient data''"
    and s: "score (healthCategory (compute ?a)) = Num 0"
    unfolding c1 by simp_all
  from h1 h2 l s c2 show ?thesis
    by blast
qed

text \<open>
  Claim C7 fails on the program. A session delivers the record \<open>0.1,0.2,45,0\<close>; \<open>compute\<close>
  publishes 40 points for bradycardia and the score 40. The session is disconnected, which
  empties the buffers, a new one is opened and its timer activates the monitoring. The
  next \<open>compute\<close> takes the early return: it publishes the level \<open>Insufficient data\<close> with
  score 0 and leaves the breakdown of the session before, whose clamped sum is 40. And for
  the record \<open>0.1,0.2,72,2.5\<close> the irregularity points are 100, outside \<open>[0, 40]\<close>.
\<close>

theorem stale_breakdown_after_insufficient_data:
  "healthCategory (run initial_app
       [PortOpened 1, ReadValue False 1000 ''0.1,0.2,45,0'', Compute, Disconnect,
        PortOpened 2, CalibrationTimer, Compute])
     = \<lparr>level = ''Insufficient data'', score = Num 0,
        desc = ''Need at least 3 beats to assess rhythm.''\<rparr>
   \<and> breakdown (run initial_app
       [PortOpened 1, ReadValue False 1000 ''0.1,0.2,45,0'', Compute, Disconnect,
        PortOpened 2, CalibrationTimer, Compute])
     = \<lparr>brady = 40, tachy = 0, irregularity = Num 0\<rparr>
   \<and> monitoringActive (run initial_app
       [PortOpened 1, ReadValue False 1000 ''0.1,0.2,45,0'', Compute, Disconnect,
        PortOpened 2, CalibrationTimer, Compute])
   \<and> breakdown (run initial_app
       [PortOpened 1, ReadValue False 1000 ''0.1,0.2,72,2.5'', Compute])
     = \<lparr>brady = 0, tachy = 0, irregularity = Num 100\<rparr>"
proof -
  let ?s1 = "read_value False 1000 ''0.1,0.2,45,0'' (port_opened 1 initial_app)"
  let ?s2 = "compute ?s1"
  let ?s3 = "disconnectSerial ?s2"
  let ?s5 = "calibration_timer (port_opened 2 ?s3)"
  have p1: "port ?s1 = Some 1" and b1: "bpm ?s1 = Some 45"
    and a1: "arduinoIrregularity ?s1 = Some [Num 0]"
    by code_simp+
  have i1: "rhythm_irregularity ?s1 = Num 0"
    using a1 by (simp add: rhythm_irregularity_def device_irregularity_def slice_last_def Let_def)
  have f1: "fst (score_rhythm 45 (Num 0)) = \<lparr>brady = 40, tachy = 0, irregularity = Num 0\<rparr>"
    by (simp add: score_rhythm_def Let_def)
  have "hasArduinoIrr ?s1"
    using a1 by (simp add: hasArduinoIrr_def)
  then have "breakdown ?s2 = fst (score_rhythm (heart_rate (bpm ?s1)) (rhythm_irregularity ?s1))"
    by (simp add: compute_scored)
  with b1 i1 f1 have k2: "breakdown ?s2 = \<lparr>brady = 40, tachy = 0, irregularity = Num 0\<rparr>"
    by (simp add: heart_rate_def)
  have p2: "port ?s2 = Some 1"
    using p1 by (simp add: compute_frame)
  have e5: "\<not> hasArduinoIrr ?s5" "length (beatsRef ?s5) < 3"
    using disconnectSerial_clears(3,4) [OF p2]
    by (simp_all add: calibration_timer_def port_opened_def hasArduinoIrr_def)
  have k5: "breakdown ?s5 = \<lparr>brady = 40, tachy = 0, irregularity = Num 0\<rparr>"
    using k2 disconnectSerial_clears(9) [OF p2]
    by (simp add: calibration_timer_def port_opened_def)
  have m5: "monitoringActive ?s5"
    by (simp add: calibration_timer_def)
  have c6: "compute ?s5 = ?s5\<lparr>healthCategory :=
      \<lparr>level = ''Insufficient data'', score = Num 0,
       desc = ''Need at least 3 beats to assess rhythm.''\<rparr>\<rparr>"
    using e5 by (rule compute_insufficient)
  have h6: "healthCategory (compute ?s5) = \<lparr>level = ''Insufficient data'', score = Num 0,
       desc = ''Need at least 3 beats to assess rhythm.''\<rparr>"
    and k6: "breakdown (compute ?s5) = \<lparr>brady = 40, tachy = 0, irregularity = Num 0\<rparr>"
    and m6: "monitoringActive (compute ?s5)"
    unfolding c6 using k5 m5 by simp_all
  let ?t1 = "read_value False 1000 ''0.1,0.2,72,2.5'' (port_opened 1 initial_app)"
  have tb: "bpm ?t1 = Some 72" and ta: "arduinoIrregularity ?t1 = Some [Num (5 / 2)]"
    by code_simp+
  have ti: "rhythm_irregularity ?t1 = Num (5 / 2)"
    using ta by (simp add: rhythm_irregularity_def device_irregularity_def slice_last_def Let_def)
  have tf: "fst (score_rhythm 72 (Num (5 / 2))) = \<lparr>brady = 0, tachy = 0, irregularity = Num 100\<rparr>"
    by (simp add: score_rhythm_def Let_def)
  have "hasArduinoIrr ?t1"
    using ta by (simp add: hasArduinoIrr_def)
  then have "breakdown (compute ?t1)
      = fst (score_rhythm (heart_rate (bpm ?t1)) (rhythm_irregularity ?t1))"
    by (simp add: compute_scored)
  with tb ti tf
  have tk: "breakdown (compute ?t1) = \<lparr>brady = 0, tachy = 0, irregularity = Num 100\<rparr>"
    by (simp add: heart_rate_def)
  from h6 k6 m6 tk show ?thesis
    by (simp add: run_def)
qed

section \<open>Ingestion and the session\<close>

lemma store_reading_fields:
  "samplesRef (store_reading m now val1 val2 b i st)
     = fst (push_samples (samplesRef st, samples2Ref st) (val2, val1))"
  "samples2Ref (store_reading m now val1 val2 b i st)
     = snd (push_samples (samplesRef st, samples2Ref st) (val2, val1))"
  "beatsRef (store_reading m now val1 val2 b i st)
     = (case b of
          None \<Rightarrow> beatsRef st
        | Some n \<Rightarrow> if 0 < n then push_beat (beatsRef st) now else beatsRef st)"
  "arduinoIrregularity (store_reading m now val1 val2 b i st)
     = (case b of
          None \<Rightarrow> arduinoIrregularity st
        | Some n \<Rightarrow>
            (case i of
               None \<Rightarrow> arduinoIrregularity st
             | Some x \<Rightarrow>
                 if 0 < n \<and> jge x (Num 0) then push_irregularity (arduinoIrregularity st) x
                 else arduinoIrregularity st))"
  "calibrating (store_reading m now val1 val2 b i st) = calibrating st"
  "monitoringActive (store_reading m now val1 val2 b i st)
     = (case b of
          None \<Rightarrow> monitoringActive st
        | Some n \<Rightarrow> if 0 < n \<and> \<not> m then True else monitoringActive st)"
  "bpm (store_reading m now val1 val2 b i st)
     = (case b of None \<Rightarrow> bpm st | Some n \<Rightarrow> if 0 < n then Some n else bpm st)"
  by (simp_all add: store_reading_def Let_def case_prod_beta split: option.splits)

lemma read_value_data_line:
  assumes "v \<noteq> []" and "\<not> is_status_line (js_trim v)"
    and "js_split (CHR '','') (js_trim v) = p0 # p1 # rest"
    and "\<not> isNaN (parseFloat p0)" and "\<not> isNaN (parseFloat p1)"
  shows "read_value m now v st =
      store_reading m now (parseFloat p0) (parseFloat p1)
        (case rest of [] \<Rightarrow> None | p2 # _ \<Rightarrow> parseInt p2)
        (case rest of p2 # p3 # _ \<Rightarrow> Some (parseFloat p3) | _ \<Rightarrow> None)
        (st\<lparr>lastSerialLine := js_trim v\<rparr>)"
  using assms by (simp add: read_value_def Let_def)


text \<open>
  Claim C6, as amended. For every reading (two lead values that parsed, the device heart
  rate and the device irregularity, each present or not): the second lead value is pushed
  into \<open>samplesRef\<close> and the first into \<open>samples2Ref\<close>, whatever the other fields; the
  clock reading is pushed into the beat time stamps exactly when the heart rate is present
  and positive; the irregularity is pushed into the device history exactly when it is
  present and not negative and the heart rate is present and positive too. A reading
  without a heart rate leaves the beat time stamps and the device history as they were.
\<close>

theorem reading_storage:
  "(length (samples2Ref st) = length (samplesRef st) \<longrightarrow>
      samplesRef (store_reading m now val1 val2 b i st)
        = slice_last MAX_SAMPLES (samplesRef st @ [val2])
      \<and> samples2Ref (store_reading m now val1 val2 b i st)
        = slice_last MAX_SAMPLES (samples2Ref st @ [val1]))
   \<and> beatsRef (store_reading m now val1 val2 b i st)
       = (case b of
            None \<Rightarrow> beatsRef st
          | Some n \<Rightarrow> if 0 < n then slice_last 50 (beatsRef st @ [now]) else beatsRef st)
   \<and> arduinoIrregularity (store_reading m now val1 val2 b i st)
       = (case b of
            None \<Rightarrow> arduinoIrregularity st
          | Some n \<Rightarrow>
              (case i of
                 None \<Rightarrow> arduinoIrregularity st
               | Some x \<Rightarrow>
                   if 0 < n \<and> jge x (Num 0) then push_irregularity (arduinoIrregularity st) x
                   else arduinoIrregularity st))
   \<and> (\<forall>a. length a \<le> 10 \<longrightarrow> push_irregularity (Some a) x = Some (slice_last 10 (a @ [x])))
   \<and> push_irregularity None x = Some [x]
   \<and> (v \<noteq> [] \<and> \<not> is_status_line (js_trim v)
        \<and> js_split (CHR '','') (js_trim v) = p0 # p1 # rest
        \<and> \<not> isNaN (parseFloat p0) \<and> \<not> isNaN (parseFloat p1) \<longrightarrow>
        read_value m now v st =
          store_reading m now (parseFloat p0) (parseFloat p1)
            (case rest of [] \<Rightarrow> None | p2 # _ \<Rightarrow> parseInt p2)
            (case rest of p2 # p3 # _ \<Rightarrow> Some (parseFloat p3) | _ \<Rightarrow> None)
            (st\<lparr>lastSerialLine := js_trim v\<rparr>))"
proof (intro conjI impI allI)
  assume eq: "length (samples2Ref st) = length (samplesRef st)"
  then have "push_samples (samplesRef st, samples2Ref st) (val2, val1) =
      (slice_last MAX_SAMPLES (samplesRef st @ [val2]),
       slice_last MAX_SAMPLES (samples2Ref st @ [val1]))"
    using push_samples_slice [of "samplesRef st" "samples2Ref st" "(val2, val1)"] by simp
  then show "samplesRef (store_reading m now val1 val2 b i st)
        = slice_last MAX_SAMPLES (samplesRef st @ [val2])"
    and "samples2Ref (store_reading m now val1 val2 b i st)
        = slice_last MAX_SAMPLES (samples2Ref st @ [val1])"
    by (simp_all add: store_reading_fields)
next
  show "beatsRef (store_reading m now val1 val2 b i st)
       = (case b of
            None \<Rightarrow> beatsRef st
          | Some n \<Rightarrow> if 0 < n then slice_last 50 (beatsRef st @ [now]) else beatsRef st)"
    by (simp add: store_reading_fields push_beat_slice split: option.splits)
next
  show "arduinoIrregularity (store_reading m now val1 val2 b i st)
       = (case b of
            None \<Rightarrow> arduinoIrregularity st
          | Some n \<Rightarrow>
              (case i of
                 None \<Rightarrow> arduinoIrregularity st
               | Some x \<Rightarrow>
                   if 0 < n \<and> jge x (Num 0) then push_irregularity (arduinoIrregularity st) x
                   else arduinoIrregularity st))"
    by (rule store_reading_fields)
next
  fix a :: "jsnum list"
  assume "length a \<le> 10"
  then show "push_irregularity (Some a) x = Some (slice_last 10 (a @ [x]))"
    by (rule push_irregularity_slice)
next
  show "push_irregularity None x = Some [x]"
    by (rule push_irregularity_None)
next
  assume "v \<noteq> [] \<and> \<not> is_status_line (js_trim v)
        \<and> js_split (CHR '','') (js_trim v) = p0 # p1 # rest
        \<and> \<not> isNaN (parseFloat p0) \<and> \<not> isNaN (parseFloat p1)"
  then show "read_value m now v st =
          store_reading m now (parseFloat p0) (parseFloat p1)
            (case rest of [] \<Rightarrow> None | p2 # _ \<Rightarrow> parseInt p2)
            (case rest of p2 # p3 # _ \<Rightarrow> Some (parseFloat p3) | _ \<Rightarrow> None)
            (st\<lparr>lastSerialLine := js_trim v\<rparr>)"
    by (simp add: read_value_data_line)
qed

text \<open>The record \<open>0.1,0.2,72,0.05\<close> read in the initial state at clock reading 1000.\<close>

theorem reading_storage_witness:
  "length (samples2Ref initial_app) = length (samplesRef initial_app)
   \<and> ''0.1,0.2,72,0.05'' \<noteq> [] \<and> \<not> is_status_line (js_trim ''0.1,0.2,72,0.05'')
   \<and> js_split (CHR '','') (js_trim ''0.1,0.2,72,0.05'') = ''0.1'' # ''0.2'' # [''72'', ''0.05'']
   \<and> \<not> isNaN (parseFloat ''0.1'') \<and> \<not> isNaN (parseFloat ''0.2'')
   \<and> samplesRef (read_value False 1000 ''0.1,0.2,72,0.05'' initial_app) = [Num (1 / 5)]
   \<and> samples2Ref (read_value False 1000 ''0.1,0.2,72,0.05'' initial_app) = [Num (1 / 10)]
   \<and> beatsRef (read_value False 1000 ''0.1,0.2,72,0.05'' initial_app) = [1000]
   \<and> arduinoIrregularity (read_value False 1000 ''0.1,0.2,72,0.05'' initial_app)
       = Some [Num (1 / 20)]"
proof -
  let ?v = "''0.1,0.2,72,0.05''"
  let ?st = "initial_app\<lparr>lastSerialLine := js_trim ?v\<rparr>"
  have h: "length (samples2Ref initial_app) = length (samplesRef initial_app)"
    "?v \<noteq> []" "\<not> is_status_line (js_trim ?v)"
    "js_split (CHR '','') (js_trim ?v) = ''0.1'' # ''0.2'' # [''72'', ''0.05'']"
    "\<not> isNaN (parseFloat ''0.1'')" "\<not> isNaN (parseFloat ''0.2'')"
    by code_simp+
  have p: "parseFloat ''0.1'' = Num (1 / 10)" "parseFloat ''0.2'' = Num (1 / 5)"
    "parseInt ''72'' = Some 72" "parseFloat ''0.05'' = Num (1 / 20)"
    by code_simp+
  have e: "samplesRef ?st = []" "samples2Ref ?st = []" "beatsRef ?st = []"
    "arduinoIrregularity ?st = None"
    by (simp_all add: initial_app_def)
  from reading_storage [of initial_app False 1000 "parseFloat ''0.1''" "parseFloat ''0.2''"
      "Some 72" "Some (Num (1 / 20))" "Num (1 / 20)" ?v "''0.1''" "''0.2''" "[''72'', ''0.05'']"] h
  have rv: "read_value False 1000 ?v initial_app =
      store_reading False 1000 (parseFloat ''0.1'') (parseFloat ''0.2'')
        (parseInt ''72'') (Some (parseFloat ''0.05'')) ?st"
    by simp
  from reading_storage [of ?st False 1000 "Num (1 / 10)" "Num (1 / 5)"
      "Some 72" "Some (Num (1 / 20))" "Num (1 / 20)" "[]"] e
  have "samplesRef (store_reading False 1000 (Num (1 / 10)) (Num (1 / 5)) (Some 72)
          (Some (Num (1 / 20))) ?st) = [Num (1 / 5)]"
    and "samples2Ref (store_reading False 1000 (Num (1 / 10)) (Num (1 / 5)) (Some 72)
          (Some (Num (1 / 20))) ?st) = [Num (1 / 10)]"
    and "beatsRef (store_reading False 1000 (Num (1 / 10)) (Num (1 / 5)) (Some 72)
          (Some (Num (1 / 20))) ?st) = [1000]"
    and "arduinoIrregularity (store_reading False 1000 (Num (1 / 10)) (Num (1 / 5)) (Some 72)
          (Some (Num (1 / 20))) ?st) = Some [Num (1 / 20)]"
    by (simp_all add: slice_last_def push_irregularity_None MAX_SAMPLES_def)
  with rv p h show ?thesis
    by simp
qed

text \<open>
  The claim as stated fails for a reading whose irregularity is present and whose heart
  rate is not: the record \<open>0.1,0.2,0,0.5\<close> (heart rate field 0, irregularity field 1/2)
  stores both lead samples and leaves the device history undefined, as it was.
\<close>

theorem reading_storage_counterexample:
  "parseInt ''0'' = Some 0 \<and> parseFloat ''0.5'' = Num (1 / 2) \<and> jge (Num (1 / 2)) (Num 0)
   \<and> samplesRef (read_value False 1000 ''0.1,0.2,0,0.5'' initial_app) = [Num (1 / 5)]
   \<and> samples2Ref (read_value False 1000 ''0.1,0.2,0,0.5'' initial_app) = [Num (1 / 10)]
   \<and> arduinoIrregularity (read_value False 1000 ''0.1,0.2,0,0.5'' initial_app) = None
   \<and> arduinoIrregularity
        (store_reading False 1000 (Num (1 / 10)) (Num (1 / 5)) None (Some (Num (1 / 2))) initial_app)
       = None"
  by code_simp




text \<open>
  Claim C9 fails on the program. A session delivers the record \<open>0.1,0.2,72,0.05\<close> and then
  a read fails. The \<^verbatim>\<open>catch\<close> block ends the calibration and nothing else: the four buffers
  keep the samples, the beat time stamp and the irregularity of the session, and the port
  and the monitoring flag stay set. The explicit disconnection of the same session
  empties all four.
\<close>

theorem transport_failure_keeps_buffers:
  "samplesRef (connect_error
       (read_value False 1000 ''0.1,0.2,72,0.05'' (port_opened 1 initial_app))) = [Num (1 / 5)]
   \<and> samples2Ref (connect_error
       (read_value False 1000 ''0.1,0.2,72,0.05'' (port_opened 1 initial_app))) = [Num (1 / 10)]
   \<and> beatsRef (connect_error
       (read_value False 1000 ''0.1,0.2,72,0.05'' (port_opened 1 initial_app))) = [1000]
   \<and> arduinoIrregularity (connect_error
       (read_value False 1000 ''0.1,0.2,72,0.05'' (port_opened 1 initial_app)))
       = Some [Num (1 / 20)]
   \<and> port (connect_error
       (read_value False 1000 ''0.1,0.2,72,0.05'' (port_opened 1 initial_app))) = Some 1
   \<and> monitoringActive (connect_error
       (read_value False 1000 ''0.1,0.2,72,0.05'' (port_opened 1 initial_app)))
   \<and> samplesRef (disconnectSerial
       (read_value False 1000 ''0.1,0.2,72,0.05'' (port_opened 1 initial_app))) = []
   \<and> samples2Ref (disconnectSerial
       (read_value False 1000 ''0.1,0.2,72,0.05'' (port_opened 1 initial_app))) = []
   \<and> beatsRef (disconnectSerial
       (read_value False 1000 ''0.1,0.2,72,0.05'' (port_opened 1 initial_app))) = []
   \<and> arduinoIrregularity (disconnectSerial
       (read_value False 1000 ''0.1,0.2,72,0.05'' (port_opened 1 initial_app))) = Some []"
  by code_simp

section \<open>The record parser\<close>














end
